theory Spec2Isabelle
  imports
    Complex_Main
    "HOL-Library.Log_Nat"
    "HOL-Library.Char_ord"
    "HOL-Library.List_Lexorder"
    "HOL-Library.Product_Lexorder"
    "HOL-Library.AList"
begin

section \<open>Python values\<close>

text \<open>
  The script \<^verbatim>\<open>scripts/fetch_nbro_aq.py\<close> works on values decoded from JSON: \<^verbatim>\<open>None\<close>,
  booleans, unbounded integers, IEEE-754 binary64 floats, strings, lists and dictionaries.
  A finite float is modelled by the rational number it denotes; the two infinities and
  NaN are constructors of their own. The sign of a zero is not represented: nothing in the
  script can observe it (Python raises \<^verbatim>\<open>ZeroDivisionError\<close> for a division by either zero,
  and no value is formatted from a float the script computes).
  Strings are byte strings (UTF-8); on UTF-8 the bytewise order is the code-point order.
  A dictionary is an association list in insertion order with distinct keys.
\<close>

datatype pyfloat = Fin rat | PInf | NInf | NaN

datatype pyval =
    PNone
  | PBool bool
  | PInt int
  | PFloat pyfloat
  | PStr string
  | PList "pyval list"
  | PDict "(string \<times> pyval) list"

type_synonym pydict = "(string \<times> pyval) list"

datatype error = ValueError | TypeError | OverflowError | ZeroDivisionError

subsection \<open>Rounding to binary64\<close>

text \<open>
  \<open>floor_log2 x\<close> is the exponent \<open>k\<close> with \<open>2\<^sup>k \<le> x < 2\<^sup>k\<^sup>+\<^sup>1\<close> of a positive rational,
  computed from the bit lengths of integers.
\<close>

definition floor_log2 :: "rat \<Rightarrow> int" where
  "floor_log2 x = (if 1 \<le> x then bitlen \<lfloor>x\<rfloor> - 1 else - bitlen (\<lceil>1 / x\<rceil> - 1))"

text \<open>Round to the nearest integer, ties to the even one (Python's \<^verbatim>\<open>round\<close>, IEEE default).\<close>

definition round_half_even :: "rat \<Rightarrow> int" where
  "round_half_even x =
     (let f = \<lfloor>x\<rfloor>; d = x - of_int f
      in if d < 1 / 2 then f else if 1 / 2 < d then f + 1 else if even f then f else f + 1)"

text \<open>
  The unit in the last place of a binary64 number with exponent \<open>k\<close> is \<open>2\<^sup>k\<^sup>-\<^sup>5\<^sup>2\<close>; below
  the smallest normal exponent \<open>-1022\<close> the spacing stays \<open>2\<^sup>-\<^sup>1\<^sup>0\<^sup>7\<^sup>4\<close> (subnormals).
\<close>

definition ulp_exponent :: "rat \<Rightarrow> int" where
  "ulp_exponent x = max (floor_log2 \<bar>x\<bar>) (- 1022) - 52"

definition round_to_grid :: "rat \<Rightarrow> rat" where
  "round_to_grid x =
     of_int (round_half_even (x / 2 powi ulp_exponent x)) * 2 powi ulp_exponent x"

text \<open>
  Round to nearest, ties to even, with overflow to an infinity: the result of every
  float operation and of reading a decimal literal.
\<close>

definition round_to_double :: "rat \<Rightarrow> pyfloat" where
  "round_to_double x =
     (let y = round_to_grid x
      in if 2 ^ 1024 \<le> y then PInf else if y \<le> - (2 ^ 1024) then NInf else Fin y)"

subsection \<open>Float comparison and arithmetic\<close>

fun fle :: "pyfloat \<Rightarrow> pyfloat \<Rightarrow> bool" where
  "fle NaN _ = False"
| "fle _ NaN = False"
| "fle NInf _ = True"
| "fle _ PInf = True"
| "fle PInf _ = False"
| "fle _ NInf = False"
| "fle (Fin a) (Fin b) = (a \<le> b)"

fun feq :: "pyfloat \<Rightarrow> pyfloat \<Rightarrow> bool" where
  "feq NaN _ = False"
| "feq _ NaN = False"
| "feq (Fin a) (Fin b) = (a = b)"
| "feq PInf PInf = True"
| "feq NInf NInf = True"
| "feq _ _ = False"

fun fneg :: "pyfloat \<Rightarrow> pyfloat" where
  "fneg (Fin a) = Fin (- a)"
| "fneg PInf = NInf"
| "fneg NInf = PInf"
| "fneg NaN = NaN"

fun fadd :: "pyfloat \<Rightarrow> pyfloat \<Rightarrow> pyfloat" where
  "fadd NaN _ = NaN"
| "fadd _ NaN = NaN"
| "fadd PInf NInf = NaN"
| "fadd NInf PInf = NaN"
| "fadd PInf _ = PInf"
| "fadd _ PInf = PInf"
| "fadd NInf _ = NInf"
| "fadd _ NInf = NInf"
| "fadd (Fin a) (Fin b) = round_to_double (a + b)"

definition fsub :: "pyfloat \<Rightarrow> pyfloat \<Rightarrow> pyfloat" where
  "fsub a b = fadd a (fneg b)"

text \<open>The sign of an infinite product or quotient.\<close>

definition signed_inf :: "bool \<Rightarrow> pyfloat" where
  "signed_inf positive = (if positive then PInf else NInf)"

fun fmul :: "pyfloat \<Rightarrow> pyfloat \<Rightarrow> pyfloat" where
  "fmul NaN _ = NaN"
| "fmul _ NaN = NaN"
| "fmul (Fin a) (Fin b) = round_to_double (a * b)"
| "fmul (Fin a) b = (if a = 0 then NaN else signed_inf ((0 < a) = (b = PInf)))"
| "fmul a (Fin b) = (if b = 0 then NaN else signed_inf ((0 < b) = (a = PInf)))"
| "fmul a b = signed_inf (a = b)"

text \<open>Python's float division raises on a zero divisor before anything else.\<close>

fun fdiv :: "pyfloat \<Rightarrow> pyfloat \<Rightarrow> error + pyfloat" where
  "fdiv a (Fin b) =
     (if b = 0 then Inl ZeroDivisionError
      else case a of
             Fin x \<Rightarrow> Inr (round_to_double (x / b))
           | NaN \<Rightarrow> Inr NaN
           | _ \<Rightarrow> Inr (signed_inf ((0 < b) = (a = PInf))))"
| "fdiv a NaN = Inr NaN"
| "fdiv (Fin x) _ = Inr (Fin 0)"
| "fdiv _ _ = Inr NaN"

subsection \<open>Builtins: conversions and \<^verbatim>\<open>round\<close>\<close>

text \<open>A float literal of the source denotes the binary64 number nearest to its decimal value.\<close>

definition float_lit :: "rat \<Rightarrow> pyfloat" where
  "float_lit r = round_to_double r"

text \<open>An integer operand of a float operation, and \<^verbatim>\<open>float(n)\<close>: correctly rounded, or
  \<^verbatim>\<open>OverflowError\<close> when the integer is too large.\<close>

definition float_of_int :: "int \<Rightarrow> error + pyfloat" where
  "float_of_int n =
     (case round_to_double (of_int n) of Fin y \<Rightarrow> Inr (Fin y) | _ \<Rightarrow> Inl OverflowError)"

text \<open>\<^verbatim>\<open>round(x)\<close> of a float with one argument: an integer, ties to even.\<close>

fun py_round :: "pyfloat \<Rightarrow> error + int" where
  "py_round (Fin x) = Inr (round_half_even x)"
| "py_round NaN = Inl ValueError"
| "py_round _ = Inl OverflowError"

subsection \<open>\<^verbatim>\<open>float(s)\<close> of a string\<close>

text \<open>
  Surrounding whitespace is dropped; underscores are allowed only between digits; the rest
  is an optional sign followed by \<^verbatim>\<open>inf\<close>, \<^verbatim>\<open>infinity\<close> or \<^verbatim>\<open>nan\<close> in any case, or a decimal
  number with an optional exponent. Characters are ASCII; the digits and spaces of other
  scripts, which Python also accepts, are not represented.
\<close>

definition is_space :: "char \<Rightarrow> bool" where
  "is_space c = (let n = (of_char c :: nat) in (9 \<le> n \<and> n \<le> 13) \<or> (28 \<le> n \<and> n \<le> 32))"

definition is_digit :: "char \<Rightarrow> bool" where
  "is_digit c = (let n = (of_char c :: nat) in 48 \<le> n \<and> n \<le> 57)"

definition digit_val :: "char \<Rightarrow> nat" where
  "digit_val c = of_char c - 48"

definition lower :: "char \<Rightarrow> char" where
  "lower c = (let n = (of_char c :: nat) in if 65 \<le> n \<and> n \<le> 90 then char_of (n + 32) else c)"

definition strip :: "string \<Rightarrow> string" where
  "strip s = rev (dropWhile is_space (rev (dropWhile is_space s)))"

text \<open>
  The pass that removes underscores: \<open>prev\<close> is the previous character, if any. An
  underscore must follow a digit and precede a digit.
\<close>

fun strip_underscores :: "char option \<Rightarrow> string \<Rightarrow> string option" where
  "strip_underscores prev [] = (if prev = Some CHR ''_'' then None else Some [])"
| "strip_underscores prev (c # cs) =
     (if c = CHR ''_'' then
        (if (case prev of Some p \<Rightarrow> is_digit p | None \<Rightarrow> False)
         then strip_underscores (Some c) cs else None)
      else if prev = Some CHR ''_'' \<and> \<not> is_digit c then None
      else map_option ((#) c) (strip_underscores (Some c) cs))"

definition nat_of_digits :: "string \<Rightarrow> nat" where
  "nat_of_digits ds = foldl (\<lambda>a c. 10 * a + digit_val c) 0 ds"

text \<open>The exponent part after \<^verbatim>\<open>e\<close>: an optional sign and at least one digit, to the end.\<close>

definition parse_exponent :: "string \<Rightarrow> int option" where
  "parse_exponent s =
     (let (neg, ds) = (case s of
                         c # t \<Rightarrow> if c = CHR ''-'' then (True, t)
                                  else if c = CHR ''+'' then (False, t) else (False, s)
                       | [] \<Rightarrow> (False, s))
      in if ds \<noteq> [] \<and> list_all is_digit ds
         then Some (if neg then - int (nat_of_digits ds) else int (nat_of_digits ds))
         else None)"

definition parse_decimal :: "string \<Rightarrow> rat option" where
  "parse_decimal s =
     (let ip = takeWhile is_digit s; r1 = dropWhile is_digit s;
          (fp, r2) = (case r1 of
                        c # t \<Rightarrow> if c = CHR ''.'' then (takeWhile is_digit t, dropWhile is_digit t)
                                 else ([], r1)
                      | [] \<Rightarrow> ([], r1));
          mant = (of_nat (nat_of_digits (ip @ fp)) :: rat)
      in if ip = [] \<and> fp = [] then None
         else case r2 of
                [] \<Rightarrow> Some (mant * 10 powi (- int (length fp)))
              | c # t \<Rightarrow>
                  if lower c = CHR ''e'' then
                    (case parse_exponent t of
                       None \<Rightarrow> None
                     | Some ex \<Rightarrow> Some (mant * 10 powi (ex - int (length fp))))
                  else None)"

definition parse_unsigned :: "string \<Rightarrow> pyfloat option" where
  "parse_unsigned s =
     (let l = map lower s
      in if l = ''inf'' \<or> l = ''infinity'' then Some PInf
         else if l = ''nan'' then Some NaN
         else map_option round_to_double (parse_decimal s))"

definition float_of_str :: "string \<Rightarrow> error + pyfloat" where
  "float_of_str s =
     (case strip_underscores None (strip s) of
        None \<Rightarrow> Inl ValueError
      | Some t \<Rightarrow>
          (let (neg, body) = (case t of
                                c # u \<Rightarrow> if c = CHR ''-'' then (True, u)
                                         else if c = CHR ''+'' then (False, u) else (False, t)
                              | [] \<Rightarrow> (False, t))
           in case parse_unsigned body of
                None \<Rightarrow> Inl ValueError
              | Some f \<Rightarrow> Inr (if neg then fneg f else f)))"

text \<open>The builtin \<^verbatim>\<open>float(x)\<close>.\<close>

fun py_float :: "pyval \<Rightarrow> error + pyfloat" where
  "py_float (PFloat f) = Inr f"
| "py_float (PInt n) = float_of_int n"
| "py_float (PBool b) = Inr (Fin (if b then 1 else 0))"
| "py_float (PStr s) = float_of_str s"
| "py_float _ = Inl TypeError"

section \<open>The breakpoint table and the classifier\<close>

type_synonym band = "pyfloat \<times> pyfloat \<times> int \<times> int \<times> string"

definition BREAKPOINTS :: "band list" where
  "BREAKPOINTS =
     [(float_lit 0, float_lit 25, 0, 50, ''Good''),
      (float_lit (251 / 10), float_lit 50, 51, 100, ''Moderate''),
      (float_lit (501 / 10), float_lit 75, 101, 150, ''Unhealthy for Sensitive Groups''),
      (float_lit (751 / 10), float_lit 150, 151, 200, ''Unhealthy''),
      (float_lit (1501 / 10), float_lit 250, 201, 300, ''Very Unhealthy''),
      (float_lit (2501 / 10), PInf, 301, 500, ''Hazardous'')]"

definition unknown_result :: pydict where
  "unknown_result = [(''sl_aqi_label'', PStr ''Unknown''), (''sl_aqi_est'', PNone)]"

text \<open>
  \<^verbatim>\<open>aqi_lo + (pm - pm_lo) * (aqi_hi - aqi_lo) / (pm_hi - pm_lo)\<close>, evaluated left to right
  in binary64, each integer operand converted to a float first.
\<close>

definition interpolate :: "pyfloat \<Rightarrow> pyfloat \<Rightarrow> pyfloat \<Rightarrow> int \<Rightarrow> int \<Rightarrow> error + pyfloat" where
  "interpolate pm pm_lo pm_hi aqi_lo aqi_hi =
     (case float_of_int (aqi_hi - aqi_lo) of
        Inl e \<Rightarrow> Inl e
      | Inr w \<Rightarrow>
          (case fdiv (fmul (fsub pm pm_lo) w) (fsub pm_hi pm_lo) of
             Inl e \<Rightarrow> Inl e
           | Inr q \<Rightarrow>
               (case float_of_int aqi_lo of
                  Inl e \<Rightarrow> Inl e
                | Inr a \<Rightarrow> Inr (fadd a q))))"

text \<open>The estimate of a matched band, already passed through \<^verbatim>\<open>int(round(est))\<close>.\<close>

definition estimate :: "pyfloat \<Rightarrow> pyfloat \<Rightarrow> pyfloat \<Rightarrow> int \<Rightarrow> int \<Rightarrow> error + int" where
  "estimate pm pm_lo pm_hi aqi_lo aqi_hi =
     (if feq pm_hi pm_lo then Inr aqi_hi
      else case interpolate pm pm_lo pm_hi aqi_lo aqi_hi of
             Inl e \<Rightarrow> Inl e
           | Inr est \<Rightarrow> py_round est)"

definition band_result :: "band \<Rightarrow> int \<Rightarrow> pydict" where
  "band_result b est =
     (case b of (pm_lo, pm_hi, aqi_lo, aqi_hi, label) \<Rightarrow>
        [(''sl_aqi_label'', PStr label),
         (''sl_aqi_est'', PInt est),
         (''sl_aqi_range'', PList [PInt aqi_lo, PInt aqi_hi]),
         (''pm25_range'', PList [PFloat pm_lo, if \<not> feq pm_hi PInf then PFloat pm_hi else PNone])])"

text \<open>The \<^verbatim>\<open>for\<close> loop over the table: the first band that contains \<open>pm\<close> returns.\<close>

fun classify_bands :: "pyfloat \<Rightarrow> band list \<Rightarrow> error + pydict" where
  "classify_bands pm [] = Inr unknown_result"
| "classify_bands pm ((pm_lo, pm_hi, aqi_lo, aqi_hi, label) # bs) =
     (if fle pm_lo pm \<and> fle pm pm_hi then
        (case estimate pm pm_lo pm_hi aqi_lo aqi_hi of
           Inl e \<Rightarrow> Inl e
         | Inr est \<Rightarrow> Inr (band_result (pm_lo, pm_hi, aqi_lo, aqi_hi, label) est))
      else classify_bands pm bs)"

definition classify_pm25 :: "pyval \<Rightarrow> error + pydict" where
  "classify_pm25 pm25 =
     (if pm25 = PNone then Inr unknown_result
      else case py_float pm25 of
             Inl e \<Rightarrow> Inl e
           | Inr pm \<Rightarrow> classify_bands pm BREAKPOINTS)"

text \<open>The test of the loop, \<^verbatim>\<open>pm_lo <= pm <= pm_hi\<close>, for one band of the table.\<close>

definition in_band :: "pyfloat \<Rightarrow> band \<Rightarrow> bool" where
  "in_band pm b =
     (case b of (pm_lo, pm_hi, aqi_lo, aqi_hi, label) \<Rightarrow> fle pm_lo pm \<and> fle pm pm_hi)"

section \<open>Timestamp conversion\<close>

subsection \<open>\<^verbatim>\<open>datetime.fromtimestamp(t, tz=timezone.utc)\<close>\<close>





subsection \<open>\<^verbatim>\<open>isoformat\<close> and \<^verbatim>\<open>str.replace\<close>\<close>







subsection \<open>\<^verbatim>\<open>iso_from_ms\<close>\<close>



section \<open>Enrichment and ordering of the stations\<close>

definition dict_get :: "pydict \<Rightarrow> string \<Rightarrow> pyval \<Rightarrow> pyval" where
  "dict_get d k dflt = (case map_of d k of Some v \<Rightarrow> v | None \<Rightarrow> dflt)"








section \<open>Evaluation of rational floors and of the rounding\<close>

lemma floor_rat_numeral [simp]:
  "\<lfloor>numeral a / numeral b :: rat\<rfloor> = numeral a div numeral b"
  by (metis floor_divide_of_int_eq of_int_numeral)

lemma floor_rat_neg_numeral [simp]:
  "\<lfloor>- (numeral a / numeral b) :: rat\<rfloor> = - numeral a div numeral b"
  by (metis divide_minus_left floor_divide_of_int_eq of_int_neg_numeral of_int_numeral)

lemma floor_rat_one_numeral [simp]:
  "\<lfloor>1 / numeral b :: rat\<rfloor> = 1 div numeral b"
  by (metis floor_divide_of_int_eq of_int_1 of_int_numeral)

lemma ceiling_rat_numeral [simp]:
  "\<lceil>numeral a / numeral b :: rat\<rceil> = - (- numeral a div numeral b)"
  by (metis ceiling_def floor_divide_of_int_eq minus_divide_left of_int_minus of_int_numeral)

lemma ceiling_rat_neg_numeral [simp]:
  "\<lceil>- (numeral a / numeral b) :: rat\<rceil> = - (numeral a div numeral b)"
  by (metis ceiling_def floor_divide_of_int_eq minus_minus of_int_numeral)

lemma ceiling_rat_one_numeral [simp]:
  "\<lceil>1 / numeral b :: rat\<rceil> = - (- 1 div numeral b)"
  by (metis ceiling_def floor_divide_of_int_eq minus_divide_left of_int_minus of_int_numeral
      of_int_1)

lemmas double_eval =
  float_lit_def round_to_double_def round_to_grid_def ulp_exponent_def floor_log2_def
  round_half_even_def Let_def power_int_minus compute_bitlen float_of_int_def fsub_def
  signed_inf_def

lemmas classify_eval =
  classify_pm25_def BREAKPOINTS_def estimate_def interpolate_def band_result_def
  unknown_result_def

lemmas float_of_str_eval =
  float_of_str_def strip_def is_space_def parse_unsigned_def parse_decimal_def
  parse_exponent_def is_digit_def digit_val_def nat_of_digits_def lower_def





section \<open>Properties of the rounding\<close>

lemma bitlen_pos: "0 < n \<Longrightarrow> 1 \<le> bitlen n"
  by (simp add: bitlen_alt_def)

lemma floor_log2_ge1:
  assumes "1 \<le> x"
  shows "2 powi floor_log2 x \<le> x \<and> x < 2 powi (floor_log2 x + 1)"
proof -
  define n where "n = \<lfloor>x\<rfloor>"
  define k where "k = bitlen n - 1"
  have n: "0 < n" using assms by (simp add: n_def)
  have k0: "0 \<le> k" using bitlen_pos[OF n] by (simp add: k_def)
  have fl: "floor_log2 x = k" using assms by (simp add: floor_log2_def k_def n_def)
  from bitlen_bounds[OF n] have lo: "2 ^ nat k \<le> n" and hi: "n + 1 \<le> 2 ^ nat (k + 1)"
    by (simp_all add: k_def)
  have "2 powi k = (of_int (2 ^ nat k) :: rat)" using k0 by (simp add: power_int_nonneg_exp)
  also have "\<dots> \<le> of_int n" using lo by (simp only: of_int_le_iff)
  also have "\<dots> \<le> x" by (simp add: n_def)
  finally have A: "2 powi k \<le> x" .
  have "x < of_int (n + 1)" using floor_correct[of x] by (simp add: n_def)
  also have "\<dots> \<le> (of_int (2 ^ nat (k + 1)) :: rat)" using hi by (simp only: of_int_le_iff)
  also have "\<dots> = 2 powi (k + 1)" using k0 by (simp add: power_int_nonneg_exp)
  finally have B: "x < 2 powi (k + 1)" .
  show ?thesis using A B fl by simp
qed

lemma floor_log2_lt1:
  assumes "0 < x" "x < 1"
  shows "2 powi floor_log2 x \<le> x \<and> x < 2 powi (floor_log2 x + 1)"
proof -
  define m where "m = \<lceil>1 / x\<rceil> - 1"
  define j where "j = bitlen m"
  have inv: "1 < 1 / x" using assms by simp
  have m: "0 < m" using inv by (simp add: m_def less_ceiling_iff)
  have j1: "1 \<le> j" using bitlen_pos[OF m] by (simp add: j_def)
  have fl: "floor_log2 x = - j" using assms by (simp add: floor_log2_def j_def m_def)
  from bitlen_bounds[OF m] have lo: "2 ^ nat (j - 1) \<le> m" and hi: "m + 1 \<le> 2 ^ nat j"
    by (simp_all add: j_def)
  have "1 / x \<le> of_int (m + 1)" by (simp add: m_def)
  also have "\<dots> \<le> (of_int (2 ^ nat j) :: rat)" using hi by (simp only: of_int_le_iff)
  also have "\<dots> = 2 powi j" using j1 by (simp add: power_int_nonneg_exp)
  finally have "1 / x \<le> 2 powi j" .
  then have A: "2 powi (- j) \<le> x"
    using assms(1) by (simp add: power_int_minus field_simps)
  have "(2::rat) powi (j - 1) = of_int (2 ^ nat (j - 1))" using j1 by (simp add: power_int_nonneg_exp)
  also have "\<dots> \<le> of_int m" using lo by (simp only: of_int_le_iff)
  also have "\<dots> < 1 / x" using ceiling_correct[of "1 / x"] by (simp add: m_def)
  finally have "2 powi (j - 1) < 1 / x" .
  then have "x * 2 powi (j - 1) < 1" using assms(1) by (simp add: field_simps)
  then have "x < 1 / 2 powi (j - 1)"
    by (simp add: pos_less_divide_eq)
  then have "x < 2 powi (- (j - 1))"
    by (simp only: power_int_minus_divide)
  then have B: "x < 2 powi (- j + 1)" by simp
  show ?thesis using A B fl by simp
qed

lemma floor_log2_bounds:
  assumes "0 < x"
  shows "2 powi floor_log2 x \<le> x" and "x < 2 powi (floor_log2 x + 1)"
  using floor_log2_ge1[of x] floor_log2_lt1[of x] assms by (cases "1 \<le> x"; simp)+

lemma floor_log2_mono:
  assumes "0 < x" "x \<le> y"
  shows "floor_log2 x \<le> floor_log2 y"
proof (rule ccontr)
  assume "\<not> floor_log2 x \<le> floor_log2 y"
  then have "floor_log2 y + 1 \<le> floor_log2 x" by simp
  then have "(2::rat) powi (floor_log2 y + 1) \<le> 2 powi floor_log2 x"
    by (intro power_int_increasing) simp_all
  also have "\<dots> \<le> x" using floor_log2_bounds(1)[OF assms(1)] .
  finally have "2 powi (floor_log2 y + 1) \<le> y" using assms(2) by simp
  moreover have "y < 2 powi (floor_log2 y + 1)"
    using floor_log2_bounds(2)[of y] assms by simp
  ultimately show False by simp
qed

lemma round_half_even_of_int [simp]: "round_half_even (of_int n) = n"
  by (simp add: round_half_even_def)

lemma round_half_even_numeral [simp]: "round_half_even (numeral n) = numeral n"
  using round_half_even_of_int[of "numeral n"] by simp

lemma round_half_even_bounds:
  "\<lfloor>x\<rfloor> \<le> round_half_even x" "round_half_even x \<le> \<lfloor>x\<rfloor> + 1"
  by (simp_all add: round_half_even_def Let_def)

lemma round_half_even_mono:
  assumes "x \<le> y"
  shows "round_half_even x \<le> round_half_even y"
proof (cases "\<lfloor>x\<rfloor> = \<lfloor>y\<rfloor>")
  case True
  then show ?thesis using assms by (auto simp: round_half_even_def Let_def)
next
  case False
  then have "\<lfloor>x\<rfloor> + 1 \<le> \<lfloor>y\<rfloor>" using floor_mono[OF assms] by simp
  then show ?thesis
    using round_half_even_bounds(2)[of x] round_half_even_bounds(1)[of y] by linarith
qed


lemma round_half_even_zero [simp]: "round_half_even 0 = 0"
  by (simp add: round_half_even_def)

lemma round_half_even_nonneg: "0 \<le> x \<Longrightarrow> 0 \<le> round_half_even x"
  using round_half_even_mono[of 0 x] by simp

lemma round_to_grid_zero [simp]: "round_to_grid 0 = 0"
  by (simp add: round_to_grid_def)

lemma round_to_grid_nonneg: "0 \<le> x \<Longrightarrow> 0 \<le> round_to_grid x"
  by (simp add: round_to_grid_def round_half_even_nonneg)

lemma ulp_exponent_mono:
  assumes "0 < x" "x \<le> y"
  shows "ulp_exponent x \<le> ulp_exponent y"
  using floor_log2_mono[OF assms] assms by (simp add: ulp_exponent_def)

text \<open>Rounding never crosses a power of two that lies on the finer grid.\<close>

lemma round_to_grid_le_pow2:
  assumes "0 < x" "x \<le> 2 powi k" "ulp_exponent x \<le> k"
  shows "round_to_grid x \<le> 2 powi k"
proof -
  define e where "e = ulp_exponent x"
  have p: "(0::rat) < 2 powi e" by simp
  have "x / 2 powi e \<le> 2 powi k / 2 powi e"
    using assms(2) p by (simp add: divide_right_mono)
  also have "\<dots> = 2 powi (k - e)" by (simp add: power_int_diff)
  also have "\<dots> = of_int (2 ^ nat (k - e))"
    using assms(3) by (simp add: e_def power_int_nonneg_exp)
  finally have "round_half_even (x / 2 powi e) \<le> 2 ^ nat (k - e)"
    using round_half_even_mono round_half_even_of_int by metis
  then have "(of_int (round_half_even (x / 2 powi e)) :: rat) \<le> of_int (2 ^ nat (k - e))"
    by (simp only: of_int_le_iff)
  also have "\<dots> = 2 powi (k - e)"
    using assms(3) by (simp add: e_def power_int_nonneg_exp)
  finally have "(of_int (round_half_even (x / 2 powi e)) :: rat) * 2 powi e \<le> 2 powi (k - e) * 2 powi e"
    using p by (simp add: mult_right_mono)
  also have "\<dots> = 2 powi k" by (simp add: power_int_add[symmetric])
  finally show ?thesis by (simp add: round_to_grid_def e_def)
qed

lemma round_to_grid_ge_pow2:
  assumes "2 powi k \<le> y" "ulp_exponent y \<le> k"
  shows "2 powi k \<le> round_to_grid y"
proof -
  define e where "e = ulp_exponent y"
  have p: "(0::rat) < 2 powi e" by simp
  have "(of_int (2 ^ nat (k - e)) :: rat) = 2 powi (k - e)"
    using assms(2) by (simp add: e_def power_int_nonneg_exp)
  also have "\<dots> = 2 powi k / 2 powi e" by (simp add: power_int_diff)
  also have "\<dots> \<le> y / 2 powi e"
    using assms(1) p by (simp add: divide_right_mono)
  finally have "2 ^ nat (k - e) \<le> round_half_even (y / 2 powi e)"
    using round_half_even_mono round_half_even_of_int by metis
  then have "(of_int (2 ^ nat (k - e)) :: rat) \<le> of_int (round_half_even (y / 2 powi e))"
    by (simp only: of_int_le_iff)
  then have A: "(of_int (2 ^ nat (k - e)) :: rat) * 2 powi e \<le> of_int (round_half_even (y / 2 powi e)) * 2 powi e"
    using p by (simp add: mult_right_mono)
  have "(of_int (2 ^ nat (k - e)) :: rat) = 2 powi (k - e)"
    using assms(2) by (simp add: e_def power_int_nonneg_exp)
  then have "(2::rat) powi k = of_int (2 ^ nat (k - e)) * 2 powi e"
    by (simp add: power_int_add[symmetric])
  also note A
  finally show ?thesis unfolding round_to_grid_def e_def .
qed

lemma round_to_grid_mono:
  assumes "0 \<le> x" "x \<le> y"
  shows "round_to_grid x \<le> round_to_grid y"
proof (cases "x = 0")
  case True
  then show ?thesis using assms round_to_grid_nonneg[of y] by simp
next
  case False
  then have x: "0 < x" and y: "0 < y" using assms by simp_all
  have le: "ulp_exponent x \<le> ulp_exponent y" using ulp_exponent_mono[OF x assms(2)] .
  show ?thesis
  proof (cases "ulp_exponent x = ulp_exponent y")
    case True
    have "x / 2 powi ulp_exponent y \<le> y / 2 powi ulp_exponent y"
      using assms(2) by (simp add: divide_right_mono)
    then have "round_half_even (x / 2 powi ulp_exponent y) \<le> round_half_even (y / 2 powi ulp_exponent y)"
      by (rule round_half_even_mono)
    then show ?thesis
      by (simp add: round_to_grid_def True mult_right_mono)
  next
    case False
    define k where "k = floor_log2 y"
    from False le have lt: "ulp_exponent x < ulp_exponent y" by simp
    then have ky: "ulp_exponent y = k - 52" and kx: "floor_log2 x < k" and kmin: "- 1022 < k"
      using x y by (auto simp: ulp_exponent_def k_def max_def split: if_splits)
    have "x < 2 powi (floor_log2 x + 1)" using floor_log2_bounds(2)[OF x] .
    also have "\<dots> \<le> 2 powi k" using kx by (intro power_int_increasing) simp_all
    finally have xk: "x \<le> 2 powi k" by simp
    have yk: "2 powi k \<le> y" using floor_log2_bounds(1)[OF y] by (simp add: k_def)
    have "round_to_grid x \<le> 2 powi k"
      using lt ky by (intro round_to_grid_le_pow2[OF x xk]) simp
    also have "\<dots> \<le> round_to_grid y"
      using ky by (intro round_to_grid_ge_pow2[OF yk]) simp
    finally show ?thesis .
  qed
qed

lemma round_to_double_grid: "round_to_double x = Fin b \<Longrightarrow> b = round_to_grid x"
  by (simp add: round_to_double_def Let_def split: if_splits)

text \<open>Below a value that rounds to a finite float, rounding stays finite.\<close>

lemma round_to_double_below:
  assumes "0 \<le> x" "x \<le> y" "round_to_double y = Fin b"
  shows "round_to_double x = Fin (round_to_grid x)"
proof -
  have "round_to_grid x \<le> round_to_grid y" using assms(1,2) by (rule round_to_grid_mono)
  moreover have "round_to_grid y < 2 ^ 1024"
    using assms(3) by (simp add: round_to_double_def Let_def split: if_splits)
  moreover have "0 \<le> round_to_grid x" using assms(1) by (rule round_to_grid_nonneg)
  ultimately show ?thesis by (simp add: round_to_double_def Let_def)
qed

lemma ulp_exponent_le:
  assumes "0 < x" "x \<le> 2 powi k" "- 1022 \<le> k"
  shows "ulp_exponent x \<le> k"
proof -
  have "floor_log2 x \<le> k"
  proof (rule ccontr)
    assume "\<not> floor_log2 x \<le> k"
    then have "k + 1 \<le> floor_log2 x" by simp
    then have "(2::rat) powi (k + 1) \<le> 2 powi floor_log2 x"
      by (intro power_int_increasing) simp_all
    also have "\<dots> \<le> x" using floor_log2_bounds(1)[OF assms(1)] .
    finally have "(2::rat) powi (k + 1) \<le> 2 powi k" using assms(2) by simp
    moreover have "(2::rat) powi k < 2 powi (k + 1)"
      by (intro power_int_strict_increasing) simp_all
    ultimately show False by simp
  qed
  then show ?thesis using assms(1,3) by (simp add: ulp_exponent_def)
qed

lemma round_to_grid_bounded:
  assumes "0 \<le> x" "x \<le> 2 powi k" "- 1022 \<le> k"
  shows "round_to_grid x \<le> 2 powi k"
proof (cases "x = 0")
  case True
  then show ?thesis by simp
next
  case False
  then have x: "0 < x" using assms(1) by simp
  show ?thesis
    using round_to_grid_le_pow2[OF x assms(2) ulp_exponent_le[OF x assms(2,3)]] .
qed

lemma round_to_double_bounded:
  assumes "0 \<le> x" "x \<le> 2 powi k" "- 1022 \<le> k" "k < 1024"
  shows "round_to_double x = Fin (round_to_grid x)"
proof -
  have "round_to_grid x \<le> 2 powi k" using assms(1-3) by (rule round_to_grid_bounded)
  also have "(2::rat) powi k < 2 powi 1024"
    using assms(4) by (intro power_int_strict_increasing) simp_all
  finally have "round_to_grid x < 2 ^ 1024" by simp
  moreover have "0 \<le> round_to_grid x" using assms(1) by (rule round_to_grid_nonneg)
  ultimately show ?thesis by (simp add: round_to_double_def Let_def)
qed

text \<open>Evaluation of the rounding when the exponent is known.\<close>

lemma floor_log2_unique:
  assumes "0 < x" "2 powi k \<le> x" "x < 2 powi (k + 1)"
  shows "floor_log2 x = k"
proof (rule antisym)
  show "floor_log2 x \<le> k"
  proof (rule ccontr)
    assume "\<not> floor_log2 x \<le> k"
    then have "k + 1 \<le> floor_log2 x" by simp
    then have "(2::rat) powi (k + 1) \<le> 2 powi floor_log2 x"
      by (intro power_int_increasing) simp_all
    also have "\<dots> \<le> x" using floor_log2_bounds(1)[OF assms(1)] .
    finally show False using assms(3) by simp
  qed
  show "k \<le> floor_log2 x"
  proof (rule ccontr)
    assume "\<not> k \<le> floor_log2 x"
    then have "floor_log2 x + 1 \<le> k" by simp
    then have "(2::rat) powi (floor_log2 x + 1) \<le> 2 powi k"
      by (intro power_int_increasing) simp_all
    also note assms(2)
    finally show False using floor_log2_bounds(2)[OF assms(1)] by simp
  qed
qed

lemma round_to_grid_at:
  assumes "2 powi k \<le> \<bar>x\<bar>" "\<bar>x\<bar> < 2 powi (k + 1)"
  shows "round_to_grid x =
           of_int (round_half_even (x / 2 powi (max k (- 1022) - 52))) * 2 powi (max k (- 1022) - 52)"
proof -
  have "0 < \<bar>x\<bar>" using assms(1) zero_less_power_int[of "2::rat" k] by linarith
  then have "floor_log2 \<bar>x\<bar> = k" using assms by (rule floor_log2_unique)
  then show ?thesis by (simp add: round_to_grid_def ulp_exponent_def)
qed

lemmas double_eval_at =
  round_to_double_def round_half_even_def Let_def power_int_minus

section \<open>Interpolation inside a band\<close>

text \<open>
  The four rounded operations of the interpolation, as a function of the offset
  \<open>x = pm - pm_lo\<close> on the rationals.
\<close>

lemma grid_chain_nonneg:
  assumes "0 \<le> x" "0 \<le> w" "0 < d"
  shows "0 \<le> round_to_grid (round_to_grid (round_to_grid x * w) / d)"
  using assms by (intro round_to_grid_nonneg divide_nonneg_pos mult_nonneg_nonneg)

lemma grid_chain_mono:
  assumes "0 \<le> x" "x \<le> y" "0 \<le> w" "0 < d" "0 \<le> a"
  shows "round_to_grid (a + round_to_grid (round_to_grid (round_to_grid x * w) / d))
       \<le> round_to_grid (a + round_to_grid (round_to_grid (round_to_grid y * w) / d))"
proof -
  have x0: "0 \<le> round_to_grid x" using assms(1) by (rule round_to_grid_nonneg)
  have xy: "round_to_grid x \<le> round_to_grid y" using assms(1,2) by (rule round_to_grid_mono)
  have m0: "0 \<le> round_to_grid x * w" using x0 assms(3) by simp
  have mm: "round_to_grid x * w \<le> round_to_grid y * w"
    using xy assms(3) by (rule mult_right_mono)
  have m: "round_to_grid (round_to_grid x * w) \<le> round_to_grid (round_to_grid y * w)"
    using m0 mm by (rule round_to_grid_mono)
  have q0: "0 \<le> round_to_grid (round_to_grid x * w) / d"
    using m0 assms(4) by (intro divide_nonneg_pos round_to_grid_nonneg)
  have q: "round_to_grid (round_to_grid (round_to_grid x * w) / d)
         \<le> round_to_grid (round_to_grid (round_to_grid y * w) / d)"
  proof (rule round_to_grid_mono[OF q0])
    show "round_to_grid (round_to_grid x * w) / d \<le> round_to_grid (round_to_grid y * w) / d"
      using m assms(4) by (simp add: divide_right_mono)
  qed
  have t0: "0 \<le> a + round_to_grid (round_to_grid (round_to_grid x * w) / d)"
    using assms(5) grid_chain_nonneg[OF assms(1,3,4)] by simp
  have t1: "a + round_to_grid (round_to_grid (round_to_grid x * w) / d)
          \<le> a + round_to_grid (round_to_grid (round_to_grid y * w) / d)"
    using q by simp
  show ?thesis using t0 t1 by (rule round_to_grid_mono)
qed

text \<open>
  In a band with finite bounds \<open>l < h\<close> whose interpolation at the upper bound stays
  finite (\<open>d\<close>, \<open>m\<close>, \<open>q\<close>, \<open>e\<close> are the intermediate floats there), the interpolation
  is finite at every value of the band.
\<close>

lemma interpolate_finite:
  assumes v: "l \<le> v" "v \<le> h"
    and a: "0 \<le> alo" "alo \<le> ahi"
    and A: "round_to_double (of_int alo) = Fin (of_int alo)"
    and W: "round_to_double (of_int (ahi - alo)) = Fin (of_int (ahi - alo))"
    and D: "round_to_double (h - l) = Fin d" "0 < d"
    and M: "round_to_double (d * of_int (ahi - alo)) = Fin m"
    and Q: "round_to_double (m / d) = Fin q"
    and E: "round_to_double (of_int alo + q) = Fin e"
  shows "interpolate (Fin v) (Fin l) (Fin h) alo ahi =
           Inr (Fin (round_to_grid (of_int alo +
             round_to_grid (round_to_grid (round_to_grid (v - l) * of_int (ahi - alo)) / d))))"
proof -
  define w :: rat where "w = of_int (ahi - alo)"
  define x where "x = v - l"
  have w0: "0 \<le> w" using a by (simp add: w_def)
  have x0: "0 \<le> x" and xh: "x \<le> h - l" using v by (simp_all add: x_def)
  have dg: "d = round_to_grid (h - l)" using D(1) by (rule round_to_double_grid)
  have mg: "m = round_to_grid (d * w)" using M unfolding w_def by (rule round_to_double_grid)
  have qg: "q = round_to_grid (m / d)" using Q by (rule round_to_double_grid)
  have eg: "e = round_to_grid (of_int alo + q)" using E by (rule round_to_double_grid)
  have s1: "round_to_double x = Fin (round_to_grid x)"
    using x0 xh D(1) by (rule round_to_double_below)
  have x1: "0 \<le> round_to_grid x" using x0 by (rule round_to_grid_nonneg)
  have x2: "round_to_grid x \<le> d" unfolding dg using x0 xh by (rule round_to_grid_mono)
  have p0: "0 \<le> round_to_grid x * w" using x1 w0 by simp
  have p1: "round_to_grid x * w \<le> d * w" using x2 w0 by (rule mult_right_mono)
  have s2: "round_to_double (round_to_grid x * w) = Fin (round_to_grid (round_to_grid x * w))"
    using p0 p1 M unfolding w_def by (rule round_to_double_below)
  have m1: "0 \<le> round_to_grid (round_to_grid x * w)" using p0 by (rule round_to_grid_nonneg)
  have m2: "round_to_grid (round_to_grid x * w) \<le> m"
    unfolding mg using p0 p1 by (rule round_to_grid_mono)
  have r0: "0 \<le> round_to_grid (round_to_grid x * w) / d" using m1 D(2) by simp
  have r1: "round_to_grid (round_to_grid x * w) / d \<le> m / d"
    using m2 D(2) by (simp add: divide_right_mono)
  have s3: "round_to_double (round_to_grid (round_to_grid x * w) / d)
          = Fin (round_to_grid (round_to_grid (round_to_grid x * w) / d))"
    using r0 r1 Q by (rule round_to_double_below)
  have q1: "0 \<le> round_to_grid (round_to_grid (round_to_grid x * w) / d)"
    using r0 by (rule round_to_grid_nonneg)
  have q2: "round_to_grid (round_to_grid (round_to_grid x * w) / d) \<le> q"
    unfolding qg using r0 r1 by (rule round_to_grid_mono)
  have t0: "0 \<le> of_int alo + round_to_grid (round_to_grid (round_to_grid x * w) / d)"
    using a(1) q1 by simp
  have t1: "of_int alo + round_to_grid (round_to_grid (round_to_grid x * w) / d) \<le> of_int alo + q"
    using q2 by simp
  have s4: "round_to_double (of_int alo + round_to_grid (round_to_grid (round_to_grid x * w) / d))
          = Fin (round_to_grid (of_int alo + round_to_grid (round_to_grid (round_to_grid x * w) / d)))"
    using t0 t1 E by (rule round_to_double_below)
  have f1: "fsub (Fin v) (Fin l) = Fin (round_to_grid x)"
    using s1 by (simp add: fsub_def x_def)
  have f2: "fsub (Fin h) (Fin l) = Fin d"
    using D(1) by (simp add: fsub_def)
  have f3: "float_of_int (ahi - alo) = Inr (Fin w)"
    using W by (simp add: float_of_int_def w_def)
  have f4: "float_of_int alo = Inr (Fin (of_int alo))"
    using A by (simp add: float_of_int_def)
  show ?thesis
    unfolding interpolate_def f1 f2 f3 f4 using D(2) s2 s3 s4
    by (simp add: w_def x_def)
qed

section \<open>The floats of the breakpoint table\<close>

lemma float_lit_0: "float_lit 0 = Fin 0"
  by (simp add: double_eval)

lemma float_lit_25: "float_lit 25 = Fin 25"
  by (simp add: double_eval)

lemma float_lit_25_1: "float_lit (251 / 10) = Fin (3532510957718733 / 140737488355328)"
  by (simp add: double_eval)

lemma float_lit_50: "float_lit 50 = Fin 50"
  by (simp add: double_eval)

lemma float_lit_50_1: "float_lit (501 / 10) = Fin (7050948166601933 / 140737488355328)"
  by (simp add: double_eval)

lemma float_lit_75: "float_lit 75 = Fin 75"
  by (simp add: double_eval)

lemma float_lit_75_1: "float_lit (751 / 10) = Fin (2642346343871283 / 35184372088832)"
  by (simp add: double_eval)

lemma float_lit_150: "float_lit 150 = Fin 150"
  by (simp add: double_eval)

lemma float_lit_150_1: "float_lit (1501 / 10) = Fin (5281174250533683 / 35184372088832)"
  by (simp add: double_eval)

lemma float_lit_250: "float_lit 250 = Fin 250"
  by (simp add: double_eval)

lemma float_lit_250_1: "float_lit (2501 / 10) = Fin (8799611459416883 / 35184372088832)"
  by (simp add: double_eval)

lemmas table_floats =
  float_lit_0 float_lit_25 float_lit_25_1 float_lit_50 float_lit_50_1
  float_lit_75 float_lit_75_1 float_lit_150 float_lit_150_1 float_lit_250
  float_lit_250_1

lemma round_int_values:
  "round_to_double 0 = Fin 0"
  "round_to_double 49 = Fin 49"
  "round_to_double 50 = Fin 50"
  "round_to_double 51 = Fin 51"
  "round_to_double 99 = Fin 99"
  "round_to_double 101 = Fin 101"
  "round_to_double 151 = Fin 151"
  "round_to_double 199 = Fin 199"
  "round_to_double 201 = Fin 201"
  "round_to_double 301 = Fin 301"
  by (simp_all add: double_eval)

text \<open>
  The estimate of a band with finite bounds: defined on the whole band, monotone,
  and between the band's AQI bounds.
\<close>

lemma estimate_finite_band:
  assumes v: "l \<le> v1" "v1 \<le> v2" "v2 \<le> h"
    and a: "0 \<le> alo" "alo \<le> ahi"
    and A: "round_to_double (of_int alo) = Fin (of_int alo)"
    and W: "round_to_double (of_int (ahi - alo)) = Fin (of_int (ahi - alo))"
    and D: "round_to_double (h - l) = Fin d" "0 < d"
    and M: "round_to_double (d * of_int (ahi - alo)) = Fin m"
    and Q: "round_to_double (m / d) = Fin q"
    and E: "round_to_double (of_int alo + q) = Fin e"
    and R: "round_half_even e = ahi"
  shows "\<exists>e1 e2. estimate (Fin v1) (Fin l) (Fin h) alo ahi = Inr e1
               \<and> estimate (Fin v2) (Fin l) (Fin h) alo ahi = Inr e2
               \<and> alo \<le> e1 \<and> e1 \<le> e2 \<and> e2 \<le> ahi"
proof -
  define w :: rat where "w = of_int (ahi - alo)"
  define G where "G x = round_to_grid (of_int alo + round_to_grid (round_to_grid (round_to_grid x * w) / d))" for x
  have w0: "0 \<le> w" using a by (simp add: w_def)
  have a0: "(0::rat) \<le> of_int alo" using a by simp
  have lh: "l \<noteq> h"
  proof
    assume "l = h"
    then have "round_to_double (h - l) = Fin 0" by (simp add: round_to_double_def Let_def)
    then show False using D by simp
  qed
  have i1: "interpolate (Fin v1) (Fin l) (Fin h) alo ahi = Inr (Fin (G (v1 - l)))"
    unfolding G_def w_def using v by (intro interpolate_finite[OF _ _ a A W D M Q E]) simp_all
  have i2: "interpolate (Fin v2) (Fin l) (Fin h) alo ahi = Inr (Fin (G (v2 - l)))"
    unfolding G_def w_def using v by (intro interpolate_finite[OF _ _ a A W D M Q E]) simp_all
  have G0: "G 0 = of_int alo"
    using round_to_double_grid[OF A] by (simp add: G_def)
  have Gh: "G (h - l) = e"
    using round_to_double_grid[OF D(1)] round_to_double_grid[OF M]
      round_to_double_grid[OF Q] round_to_double_grid[OF E]
    by (simp add: G_def w_def)
  have "G 0 \<le> G (v1 - l)"
    unfolding G_def using v by (intro grid_chain_mono w0 D(2) a0) simp_all
  then have b1: "alo \<le> round_half_even (G (v1 - l))"
    using round_half_even_mono[of "of_int alo" "G (v1 - l)"] by (simp add: G0)
  have "G (v1 - l) \<le> G (v2 - l)"
    unfolding G_def using v by (intro grid_chain_mono w0 D(2) a0) simp_all
  then have b2: "round_half_even (G (v1 - l)) \<le> round_half_even (G (v2 - l))"
    by (rule round_half_even_mono)
  have "G (v2 - l) \<le> G (h - l)"
    unfolding G_def using v by (intro grid_chain_mono w0 D(2) a0) simp_all
  then have b3: "round_half_even (G (v2 - l)) \<le> ahi"
    using round_half_even_mono[of "G (v2 - l)" e] by (simp add: Gh R)
  show ?thesis
    using lh b1 b2 b3 by (simp add: estimate_def i1 i2)
qed

text \<open>
  The top band has an infinite upper bound: the quotient by it is zero, so the estimate
  is the band's lower AQI bound, as long as the product before it stays finite.
\<close>

lemma estimate_top_band:
  assumes "l \<le> v" "v \<le> 10 ^ 300" "0 \<le> l"
  shows "estimate (Fin v) (Fin l) PInf 301 500 = Inr 301"
proof -
  define x where "x = v - l"
  have x0: "0 \<le> x" using assms by (simp add: x_def)
  have "x \<le> 10 ^ 300" using assms by (simp add: x_def)
  also have "(10::rat) ^ 300 \<le> 2 powi 1000" by simp
  finally have x1: "x \<le> 2 powi 1000" .
  have s1: "round_to_double x = Fin (round_to_grid x)"
    using x0 x1 by (rule round_to_double_bounded) simp_all
  have g0: "0 \<le> round_to_grid x" using x0 by (rule round_to_grid_nonneg)
  have g1: "round_to_grid x \<le> 2 powi 1000" using x0 x1 by (rule round_to_grid_bounded) simp
  have "round_to_grid x * 199 \<le> 2 powi 1000 * 199" using g1 by simp
  also have "\<dots> \<le> 2 powi 1000 * 2 powi 8" by (intro mult_left_mono) simp_all
  also have "\<dots> = 2 powi 1008" by (simp add: power_int_add[symmetric])
  finally have p1: "round_to_grid x * 199 \<le> 2 powi 1008" .
  have p0: "0 \<le> round_to_grid x * 199" using g0 by simp
  have s2: "round_to_double (round_to_grid x * 199) = Fin (round_to_grid (round_to_grid x * 199))"
    using p0 p1 by (rule round_to_double_bounded) simp_all
  have f1: "fsub (Fin v) (Fin l) = Fin (round_to_grid x)"
    using s1 by (simp add: fsub_def x_def)
  have f2: "fsub PInf (Fin l) = PInf" by (simp add: fsub_def)
  have f3: "float_of_int (500 - 301) = Inr (Fin 199)" "float_of_int 301 = Inr (Fin 301)"
    by (simp_all add: float_of_int_def round_int_values)
  show ?thesis
    unfolding estimate_def interpolate_def f1 f2 f3
    by (simp add: s2 round_int_values)
qed

section \<open>Classification of a value inside a band\<close>

text \<open>A value between the bounds of a band is classified by that band: no earlier band contains it.\<close>

lemma select_good:
  assumes "0 \<le> v" "v \<le> 25"
  shows "classify_pm25 (PFloat (Fin v)) =
           (case estimate (Fin v) (Fin 0) (Fin 25) 0 50 of
              Inl e \<Rightarrow> Inl e
            | Inr est \<Rightarrow> Inr (band_result (Fin 0, Fin 25, 0, 50, ''Good'') est))"
  using assms by (simp add: classify_pm25_def BREAKPOINTS_def table_floats)

lemma estimate_good:
  assumes "0 \<le> v1" "v1 \<le> v2" "v2 \<le> 25"
  shows "\<exists>e1 e2. estimate (Fin v1) (Fin 0) (Fin 25) 0 50 = Inr e1
               \<and> estimate (Fin v2) (Fin 0) (Fin 25) 0 50 = Inr e2
               \<and> 0 \<le> e1 \<and> e1 \<le> e2 \<and> e2 \<le> 50"
proof (rule estimate_finite_band[OF assms, where d = "25" and m = "1250" and q = "50" and e = "50"])
qed (simp_all add: double_eval)

lemma select_moderate:
  assumes "(3532510957718733 / 140737488355328) \<le> v" "v \<le> 50"
  shows "classify_pm25 (PFloat (Fin v)) =
           (case estimate (Fin v) (Fin (3532510957718733 / 140737488355328)) (Fin 50) 51 100 of
              Inl e \<Rightarrow> Inl e
            | Inr est \<Rightarrow> Inr (band_result (Fin (3532510957718733 / 140737488355328), Fin 50, 51, 100, ''Moderate'') est))"
  using assms by (simp add: classify_pm25_def BREAKPOINTS_def table_floats)

lemma estimate_moderate:
  assumes "(3532510957718733 / 140737488355328) \<le> v1" "v1 \<le> v2" "v2 \<le> 50"
  shows "\<exists>e1 e2. estimate (Fin v1) (Fin (3532510957718733 / 140737488355328)) (Fin 50) 51 100 = Inr e1
               \<and> estimate (Fin v2) (Fin (3532510957718733 / 140737488355328)) (Fin 50) 51 100 = Inr e2
               \<and> 51 \<le> e1 \<and> e1 \<le> e2 \<and> e2 \<le> 100"
proof (rule estimate_finite_band[OF assms, where d = "(3504363460047667 / 140737488355328)" and m = "(2683028274098995 / 2199023255552)" and q = "49" and e = "100"])
qed (simp_all add: double_eval)

lemma select_sensitive:
  assumes "(7050948166601933 / 140737488355328) \<le> v" "v \<le> 75"
  shows "classify_pm25 (PFloat (Fin v)) =
           (case estimate (Fin v) (Fin (7050948166601933 / 140737488355328)) (Fin 75) 101 150 of
              Inl e \<Rightarrow> Inl e
            | Inr est \<Rightarrow> Inr (band_result (Fin (7050948166601933 / 140737488355328), Fin 75, 101, 150, ''Unhealthy for Sensitive Groups'') est))"
  using assms by (simp add: classify_pm25_def BREAKPOINTS_def table_floats)

lemma estimate_sensitive:
  assumes "(7050948166601933 / 140737488355328) \<le> v1" "v1 \<le> v2" "v2 \<le> 75"
  shows "\<exists>e1 e2. estimate (Fin v1) (Fin (7050948166601933 / 140737488355328)) (Fin 75) 101 150 = Inr e1
               \<and> estimate (Fin v2) (Fin (7050948166601933 / 140737488355328)) (Fin 75) 101 150 = Inr e2
               \<and> 101 \<le> e1 \<and> e1 \<le> e2 \<and> e2 \<le> 150"
proof (rule estimate_finite_band[OF assms, where d = "(3504363460047667 / 140737488355328)" and m = "(2683028274098995 / 2199023255552)" and q = "49" and e = "150"])
qed (simp_all add: double_eval)

lemma select_unhealthy:
  assumes "(2642346343871283 / 35184372088832) \<le> v" "v \<le> 150"
  shows "classify_pm25 (PFloat (Fin v)) =
           (case estimate (Fin v) (Fin (2642346343871283 / 35184372088832)) (Fin 150) 151 200 of
              Inl e \<Rightarrow> Inl e
            | Inr est \<Rightarrow> Inr (band_result (Fin (2642346343871283 / 35184372088832), Fin 150, 151, 200, ''Unhealthy'') est))"
  using assms by (simp add: classify_pm25_def BREAKPOINTS_def table_floats)

lemma estimate_unhealthy:
  assumes "(2642346343871283 / 35184372088832) \<le> v1" "v1 \<le> v2" "v2 \<le> 150"
  shows "\<exists>e1 e2. estimate (Fin v1) (Fin (2642346343871283 / 35184372088832)) (Fin 150) 151 200 = Inr e1
               \<and> estimate (Fin v2) (Fin (2642346343871283 / 35184372088832)) (Fin 150) 151 200 = Inr e2
               \<and> 151 \<le> e1 \<and> e1 \<le> e2 \<and> e2 \<le> 200"
proof (rule estimate_finite_band[OF assms, where d = "(2635309469453517 / 35184372088832)" and m = "(2017658812550349 / 549755813888)" and q = "49" and e = "200"])
qed (simp_all add: double_eval)

lemma select_very_unhealthy:
  assumes "(5281174250533683 / 35184372088832) \<le> v" "v \<le> 250"
  shows "classify_pm25 (PFloat (Fin v)) =
           (case estimate (Fin v) (Fin (5281174250533683 / 35184372088832)) (Fin 250) 201 300 of
              Inl e \<Rightarrow> Inl e
            | Inr est \<Rightarrow> Inr (band_result (Fin (5281174250533683 / 35184372088832), Fin 250, 201, 300, ''Very Unhealthy'') est))"
  using assms by (simp add: classify_pm25_def BREAKPOINTS_def table_floats)

lemma estimate_very_unhealthy:
  assumes "(5281174250533683 / 35184372088832) \<le> v1" "v1 \<le> v2" "v2 \<le> 250"
  shows "\<exists>e1 e2. estimate (Fin v1) (Fin (5281174250533683 / 35184372088832)) (Fin 250) 201 300 = Inr e1
               \<and> estimate (Fin v2) (Fin (5281174250533683 / 35184372088832)) (Fin 250) 201 300 = Inr e2
               \<and> 201 \<le> e1 \<and> e1 \<le> e2 \<and> e2 \<le> 300"
proof (rule estimate_finite_band[OF assms, where d = "(3514918771674317 / 35184372088832)" and m = "(5437139974933709 / 549755813888)" and q = "99" and e = "300"])
qed (simp_all add: double_eval)

lemma select_hazardous:
  assumes "(8799611459416883 / 35184372088832) \<le> v"
  shows "classify_pm25 (PFloat (Fin v)) =
           (case estimate (Fin v) (Fin (8799611459416883 / 35184372088832)) PInf 301 500 of
              Inl e \<Rightarrow> Inl e
            | Inr est \<Rightarrow> Inr (band_result (Fin (8799611459416883 / 35184372088832), PInf, 301, 500, ''Hazardous'') est))"
  using assms by (simp add: classify_pm25_def BREAKPOINTS_def table_floats)

text \<open>
  Inside any band of the table, up to \<open>10\<^sup>3\<^sup>0\<^sup>0\<close>: the classifier returns that band, and
  its estimate is monotone in the value and lies between the band's AQI bounds.
\<close>

lemma classify_in_band:
  assumes b: "(pm_lo, pm_hi, aqi_lo, aqi_hi, label) \<in> set BREAKPOINTS"
    and v1: "in_band (Fin v1) (pm_lo, pm_hi, aqi_lo, aqi_hi, label)"
    and v2: "in_band (Fin v2) (pm_lo, pm_hi, aqi_lo, aqi_hi, label)"
    and le: "v1 \<le> v2" "v2 \<le> 10 ^ 300"
  shows "\<exists>e1 e2.
           classify_pm25 (PFloat (Fin v1)) = Inr (band_result (pm_lo, pm_hi, aqi_lo, aqi_hi, label) e1)
         \<and> classify_pm25 (PFloat (Fin v2)) = Inr (band_result (pm_lo, pm_hi, aqi_lo, aqi_hi, label) e2)
         \<and> aqi_lo \<le> e1 \<and> e1 \<le> e2 \<and> e2 \<le> aqi_hi"
proof -
  from b have
     "pm_lo = Fin 0 \<and> pm_hi = Fin 25 \<and> aqi_lo = 0 \<and> aqi_hi = 50 \<and> label = ''Good''
    \<or> pm_lo = Fin (3532510957718733 / 140737488355328) \<and> pm_hi = Fin 50
        \<and> aqi_lo = 51 \<and> aqi_hi = 100 \<and> label = ''Moderate''
    \<or> pm_lo = Fin (7050948166601933 / 140737488355328) \<and> pm_hi = Fin 75
        \<and> aqi_lo = 101 \<and> aqi_hi = 150 \<and> label = ''Unhealthy for Sensitive Groups''
    \<or> pm_lo = Fin (2642346343871283 / 35184372088832) \<and> pm_hi = Fin 150
        \<and> aqi_lo = 151 \<and> aqi_hi = 200 \<and> label = ''Unhealthy''
    \<or> pm_lo = Fin (5281174250533683 / 35184372088832) \<and> pm_hi = Fin 250
        \<and> aqi_lo = 201 \<and> aqi_hi = 300 \<and> label = ''Very Unhealthy''
    \<or> pm_lo = Fin (8799611459416883 / 35184372088832) \<and> pm_hi = PInf
        \<and> aqi_lo = 301 \<and> aqi_hi = 500 \<and> label = ''Hazardous''"
    unfolding BREAKPOINTS_def table_floats by simp
  then show ?thesis
  proof (elim disjE conjE)
    assume good: "pm_lo = Fin 0" "pm_hi = Fin 25" "aqi_lo = 0" "aqi_hi = 50" "label = ''Good''"
    have r: "0 \<le> v1" "v2 \<le> 25" using v1 v2 by (simp_all add: in_band_def good)
    from estimate_good[OF r(1) le(1) r(2)] obtain e1 e2 where
      E: "estimate (Fin v1) (Fin 0) (Fin 25) 0 50 = Inr e1"
         "estimate (Fin v2) (Fin 0) (Fin 25) 0 50 = Inr e2"
         "0 \<le> e1" "e1 \<le> e2" "e2 \<le> 50"
      by blast
    have "classify_pm25 (PFloat (Fin v1)) = Inr (band_result (pm_lo, pm_hi, aqi_lo, aqi_hi, label) e1)"
      using r le(1) by (simp add: select_good good E)
    moreover have "classify_pm25 (PFloat (Fin v2)) = Inr (band_result (pm_lo, pm_hi, aqi_lo, aqi_hi, label) e2)"
      using r le(1) by (simp add: select_good good E)
    ultimately show ?thesis using E(3-5) unfolding good(3,4) by blast
  next
    assume moderate: "pm_lo = Fin (3532510957718733 / 140737488355328)" "pm_hi = Fin 50" "aqi_lo = 51" "aqi_hi = 100" "label = ''Moderate''"
    have r: "3532510957718733 / 140737488355328 \<le> v1" "v2 \<le> 50" using v1 v2 by (simp_all add: in_band_def moderate)
    from estimate_moderate[OF r(1) le(1) r(2)] obtain e1 e2 where
      E: "estimate (Fin v1) (Fin (3532510957718733 / 140737488355328)) (Fin 50) 51 100 = Inr e1"
         "estimate (Fin v2) (Fin (3532510957718733 / 140737488355328)) (Fin 50) 51 100 = Inr e2"
         "51 \<le> e1" "e1 \<le> e2" "e2 \<le> 100"
      by blast
    have "classify_pm25 (PFloat (Fin v1)) = Inr (band_result (pm_lo, pm_hi, aqi_lo, aqi_hi, label) e1)"
      using r le(1) by (simp add: select_moderate moderate E)
    moreover have "classify_pm25 (PFloat (Fin v2)) = Inr (band_result (pm_lo, pm_hi, aqi_lo, aqi_hi, label) e2)"
      using r le(1) by (simp add: select_moderate moderate E)
    ultimately show ?thesis using E(3-5) unfolding moderate(3,4) by blast
  next
    assume sensitive: "pm_lo = Fin (7050948166601933 / 140737488355328)" "pm_hi = Fin 75" "aqi_lo = 101" "aqi_hi = 150" "label = ''Unhealthy for Sensitive Groups''"
    have r: "7050948166601933 / 140737488355328 \<le> v1" "v2 \<le> 75" using v1 v2 by (simp_all add: in_band_def sensitive)
    from estimate_sensitive[OF r(1) le(1) r(2)] obtain e1 e2 where
      E: "estimate (Fin v1) (Fin (7050948166601933 / 140737488355328)) (Fin 75) 101 150 = Inr e1"
         "estimate (Fin v2) (Fin (7050948166601933 / 140737488355328)) (Fin 75) 101 150 = Inr e2"
         "101 \<le> e1" "e1 \<le> e2" "e2 \<le> 150"
      by blast
    have "classify_pm25 (PFloat (Fin v1)) = Inr (band_result (pm_lo, pm_hi, aqi_lo, aqi_hi, label) e1)"
      using r le(1) by (simp add: select_sensitive sensitive E)
    moreover have "classify_pm25 (PFloat (Fin v2)) = Inr (band_result (pm_lo, pm_hi, aqi_lo, aqi_hi, label) e2)"
      using r le(1) by (simp add: select_sensitive sensitive E)
    ultimately show ?thesis using E(3-5) unfolding sensitive(3,4) by blast
  next
    assume unhealthy: "pm_lo = Fin (2642346343871283 / 35184372088832)" "pm_hi = Fin 150" "aqi_lo = 151" "aqi_hi = 200" "label = ''Unhealthy''"
    have r: "2642346343871283 / 35184372088832 \<le> v1" "v2 \<le> 150" using v1 v2 by (simp_all add: in_band_def unhealthy)
    from estimate_unhealthy[OF r(1) le(1) r(2)] obtain e1 e2 where
      E: "estimate (Fin v1) (Fin (2642346343871283 / 35184372088832)) (Fin 150) 151 200 = Inr e1"
         "estimate (Fin v2) (Fin (2642346343871283 / 35184372088832)) (Fin 150) 151 200 = Inr e2"
         "151 \<le> e1" "e1 \<le> e2" "e2 \<le> 200"
      by blast
    have "classify_pm25 (PFloat (Fin v1)) = Inr (band_result (pm_lo, pm_hi, aqi_lo, aqi_hi, label) e1)"
      using r le(1) by (simp add: select_unhealthy unhealthy E)
    moreover have "classify_pm25 (PFloat (Fin v2)) = Inr (band_result (pm_lo, pm_hi, aqi_lo, aqi_hi, label) e2)"
      using r le(1) by (simp add: select_unhealthy unhealthy E)
    ultimately show ?thesis using E(3-5) unfolding unhealthy(3,4) by blast
  next
    assume very_unhealthy: "pm_lo = Fin (5281174250533683 / 35184372088832)" "pm_hi = Fin 250" "aqi_lo = 201" "aqi_hi = 300" "label = ''Very Unhealthy''"
    have r: "5281174250533683 / 35184372088832 \<le> v1" "v2 \<le> 250" using v1 v2 by (simp_all add: in_band_def very_unhealthy)
    from estimate_very_unhealthy[OF r(1) le(1) r(2)] obtain e1 e2 where
      E: "estimate (Fin v1) (Fin (5281174250533683 / 35184372088832)) (Fin 250) 201 300 = Inr e1"
         "estimate (Fin v2) (Fin (5281174250533683 / 35184372088832)) (Fin 250) 201 300 = Inr e2"
         "201 \<le> e1" "e1 \<le> e2" "e2 \<le> 300"
      by blast
    have "classify_pm25 (PFloat (Fin v1)) = Inr (band_result (pm_lo, pm_hi, aqi_lo, aqi_hi, label) e1)"
      using r le(1) by (simp add: select_very_unhealthy very_unhealthy E)
    moreover have "classify_pm25 (PFloat (Fin v2)) = Inr (band_result (pm_lo, pm_hi, aqi_lo, aqi_hi, label) e2)"
      using r le(1) by (simp add: select_very_unhealthy very_unhealthy E)
    ultimately show ?thesis using E(3-5) unfolding very_unhealthy(3,4) by blast
  next
    assume hazardous: "pm_lo = Fin (8799611459416883 / 35184372088832)" "pm_hi = PInf" "aqi_lo = 301" "aqi_hi = 500" "label = ''Hazardous''"
    have r: "8799611459416883 / 35184372088832 \<le> v1" "8799611459416883 / 35184372088832 \<le> v2"
      using v1 v2 by (simp_all add: in_band_def hazardous)
    have "v1 \<le> 10 ^ 300" using le by simp
    then have e1: "estimate (Fin v1) (Fin (8799611459416883 / 35184372088832)) PInf 301 500 = Inr 301"
      using r(1) by (intro estimate_top_band) simp_all
    have e2: "estimate (Fin v2) (Fin (8799611459416883 / 35184372088832)) PInf 301 500 = Inr 301"
      using r(2) le(2) by (intro estimate_top_band) simp_all
    have "classify_pm25 (PFloat (Fin v1)) = Inr (band_result (pm_lo, pm_hi, aqi_lo, aqi_hi, label) 301)"
      using r by (simp add: select_hazardous hazardous e1)
    moreover have "classify_pm25 (PFloat (Fin v2)) = Inr (band_result (pm_lo, pm_hi, aqi_lo, aqi_hi, label) 301)"
      using r by (simp add: select_hazardous hazardous e2)
    ultimately show ?thesis unfolding hazardous(3,4) by fastforce
  qed
qed

text \<open>The labels of the table.\<close>

lemma band_labels:
  assumes "(pm_lo, pm_hi, aqi_lo, aqi_hi, label) \<in> set BREAKPOINTS"
  shows "label \<in> {''Good'', ''Moderate'', ''Unhealthy for Sensitive Groups'',
                   ''Unhealthy'', ''Very Unhealthy'', ''Hazardous''}"
proof -
  from assms have
    "label = ''Good'' \<or> label = ''Moderate'' \<or> label = ''Unhealthy for Sensitive Groups''
     \<or> label = ''Unhealthy'' \<or> label = ''Very Unhealthy'' \<or> label = ''Hazardous''"
    unfolding BREAKPOINTS_def by (simp only: set_simps insert_iff empty_iff prod.inject) argo
  then show ?thesis by (simp only: insert_iff empty_iff simp_thms)
qed

text \<open>A value that passes the test of no band falls through the loop.\<close>

lemma classify_outside_bands:
  assumes "\<not> list_ex (in_band pm) bs"
  shows "classify_bands pm bs = Inr unknown_result"
  using assms
proof (induction bs)
  case Nil
  show ?case by simp
next
  case (Cons b bs)
  obtain pm_lo pm_hi aqi_lo aqi_hi label where b: "b = (pm_lo, pm_hi, aqi_lo, aqi_hi, label)"
    by (cases b)
  from Cons.prems have out: "\<not> in_band pm b" and rest: "\<not> list_ex (in_band pm) bs"
    by simp_all
  from out have "\<not> (fle pm_lo pm \<and> fle pm pm_hi)" by (simp add: in_band_def b)
  then have "classify_bands pm (b # bs) = classify_bands pm bs"
    unfolding b by (simp only: classify_bands.simps if_False)
  then show ?case using Cons.IH[OF rest] by simp
qed

section \<open>The claims about the classifier\<close>

text \<open>
  C1. The claim: for every numeric input, negative, extremely large or non-finite,
  \<^verbatim>\<open>classify_pm25\<close> returns a result and raises no exception. The code does not: for the
  float \<^verbatim>\<open>inf\<close> the top band matches, the interpolation divides infinity by infinity, and
  \<^verbatim>\<open>round\<close> raises \<^verbatim>\<open>ValueError\<close> on the resulting NaN.
\<close>

theorem classify_pm25_infinity_raises:
  "classify_pm25 (PFloat PInf) = Inl ValueError"
  by (simp add: classify_eval double_eval)

text \<open>
  C2. The claim: a non-absent input that cannot be coerced to a number is classified as
  \<^verbatim>\<open>Unknown\<close>. The code does not catch the error of \<^verbatim>\<open>float(pm25)\<close>: for the string
  \<^verbatim>\<open>unparseable\<close> the \<^verbatim>\<open>ValueError\<close> leaves the function.
\<close>

theorem classify_pm25_unparseable_raises:
  "classify_pm25 (PStr ''unparseable'') = Inl ValueError"
  by (simp add: classify_pm25_def float_of_str_eval)

text \<open>
  C3, as stated: every value \<open>v \<ge> 0.0\<close> matches some band. It fails between two bands:
  \<^verbatim>\<open>25.05\<close> is above the first band and below the second, and is classified
  \<^verbatim>\<open>Unknown\<close>.
\<close>

theorem classify_pm25_gap_counterexample:
  "fle (float_lit 0) (float_lit (2505 / 100))
   \<and> classify_pm25 (PFloat (float_lit (2505 / 100)))
       = Inr [(''sl_aqi_label'', PStr ''Unknown''), (''sl_aqi_est'', PNone)]"
  by (simp add: classify_eval double_eval)

text \<open>
  C3, amended: every finite value up to \<open>10\<^sup>3\<^sup>0\<^sup>0\<close> that lies between the bounds of a band
  of the table is classified by that band, so its label is one of the six band names and
  never \<^verbatim>\<open>Unknown\<close>; a finite value that lies in no band is classified \<^verbatim>\<open>Unknown\<close>.
\<close>

theorem classify_pm25_inside_band:
  "(b \<in> set BREAKPOINTS \<longrightarrow> in_band (Fin v) b \<longrightarrow> v \<le> 10 ^ 300 \<longrightarrow>
      (\<exists>est. classify_pm25 (PFloat (Fin v)) = Inr (band_result b est)
           \<and> dict_get (band_result b est) ''sl_aqi_label'' PNone
                 \<in> PStr ` {''Good'', ''Moderate'', ''Unhealthy for Sensitive Groups'',
                            ''Unhealthy'', ''Very Unhealthy'', ''Hazardous''}))
   \<and> (\<not> list_ex (in_band (Fin v)) BREAKPOINTS \<longrightarrow>
        classify_pm25 (PFloat (Fin v))
          = Inr [(''sl_aqi_label'', PStr ''Unknown''), (''sl_aqi_est'', PNone)])"
proof (intro conjI impI)
  assume in_table: "b \<in> set BREAKPOINTS" and inside: "in_band (Fin v) b" and small: "v \<le> 10 ^ 300"
  obtain pm_lo pm_hi aqi_lo aqi_hi label where b: "b = (pm_lo, pm_hi, aqi_lo, aqi_hi, label)"
    by (cases b)
  have le: "v \<le> v" by simp
  from classify_in_band[OF in_table[unfolded b] inside[unfolded b] inside[unfolded b] le small]
  obtain est where est: "classify_pm25 (PFloat (Fin v)) = Inr (band_result b est)"
    unfolding b by (elim exE conjE)
  have "dict_get (band_result b est) ''sl_aqi_label'' PNone = PStr label"
    unfolding b by (simp add: dict_get_def band_result_def)
  moreover have "PStr label \<in> PStr ` {''Good'', ''Moderate'', ''Unhealthy for Sensitive Groups'',
                            ''Unhealthy'', ''Very Unhealthy'', ''Hazardous''}"
    using band_labels[OF in_table[unfolded b]] by (rule imageI)
  ultimately show "\<exists>est. classify_pm25 (PFloat (Fin v)) = Inr (band_result b est)
           \<and> dict_get (band_result b est) ''sl_aqi_label'' PNone
                 \<in> PStr ` {''Good'', ''Moderate'', ''Unhealthy for Sensitive Groups'',
                            ''Unhealthy'', ''Very Unhealthy'', ''Hazardous''}"
    using est by (intro exI[of _ est] conjI) simp_all
next
  assume "\<not> list_ex (in_band (Fin v)) BREAKPOINTS"
  then have "classify_bands (Fin v) BREAKPOINTS = Inr unknown_result"
    by (rule classify_outside_bands)
  then show "classify_pm25 (PFloat (Fin v))
          = Inr [(''sl_aqi_label'', PStr ''Unknown''), (''sl_aqi_est'', PNone)]"
    by (simp add: classify_pm25_def unknown_result_def)
qed

theorem classify_pm25_inside_band_witness:
  "(float_lit (251 / 10), float_lit 50, 51, 100, ''Moderate'') \<in> set BREAKPOINTS
   \<and> in_band (Fin 30) (float_lit (251 / 10), float_lit 50, 51, 100, ''Moderate'')
   \<and> (30::rat) \<le> 10 ^ 300
   \<and> (\<exists>est. classify_pm25 (PFloat (Fin 30))
              = Inr (band_result (float_lit (251 / 10), float_lit 50, 51, 100, ''Moderate'') est)
            \<and> dict_get (band_result (float_lit (251 / 10), float_lit 50, 51, 100, ''Moderate'') est)
                 ''sl_aqi_label'' PNone
                 \<in> PStr ` {''Good'', ''Moderate'', ''Unhealthy for Sensitive Groups'',
                            ''Unhealthy'', ''Very Unhealthy'', ''Hazardous''})
   \<and> \<not> list_ex (in_band (Fin (501 / 20))) BREAKPOINTS
   \<and> classify_pm25 (PFloat (Fin (501 / 20)))
       = Inr [(''sl_aqi_label'', PStr ''Unknown''), (''sl_aqi_est'', PNone)]"
proof -
  have 1: "(float_lit (251 / 10), float_lit 50, 51, 100, ''Moderate'') \<in> set BREAKPOINTS"
    by (simp add: BREAKPOINTS_def)
  have 2: "in_band (Fin 30) (float_lit (251 / 10), float_lit 50, 51, 100, ''Moderate'')"
    by (simp add: in_band_def table_floats)
  have 3: "(30::rat) \<le> 10 ^ 300" by simp
  have 4: "\<not> list_ex (in_band (Fin (501 / 20))) BREAKPOINTS"
    by (simp add: BREAKPOINTS_def in_band_def table_floats)
  note inside = classify_pm25_inside_band[THEN conjunct1, THEN mp, THEN mp, THEN mp, OF 1 2 3]
  note outside = classify_pm25_inside_band[THEN conjunct2, THEN mp, OF 4]
  show ?thesis using 1 2 3 inside 4 outside by (intro conjI)
qed

text \<open>
  C4. \<^verbatim>\<open>classify_pm25(25.0)\<close> is \<^verbatim>\<open>Good\<close> with estimate 50, and \<^verbatim>\<open>classify_pm25(25.1)\<close> is
  \<^verbatim>\<open>Moderate\<close> with estimate 51: a value equal to a band's upper bound belongs to that
  band, not to the next.
\<close>

theorem classify_pm25_boundary:
  "classify_pm25 (PFloat (float_lit 25))
     = Inr [(''sl_aqi_label'', PStr ''Good''), (''sl_aqi_est'', PInt 50),
            (''sl_aqi_range'', PList [PInt 0, PInt 50]),
            (''pm25_range'', PList [PFloat (float_lit 0), PFloat (float_lit 25)])]
   \<and> classify_pm25 (PFloat (float_lit (251 / 10)))
     = Inr [(''sl_aqi_label'', PStr ''Moderate''), (''sl_aqi_est'', PInt 51),
            (''sl_aqi_range'', PList [PInt 51, PInt 100]),
            (''pm25_range'', PList [PFloat (float_lit (251 / 10)), PFloat (float_lit 50)])]"
  by (simp add: classify_eval double_eval)

text \<open>
  C5. The claim: inside one band the estimate is monotone, and the lower and the upper
  bound of the band are classified with the same ranges. For the bands with a finite upper
  bound this is \<open>classify_in_band\<close>; the upper bound of the top band is \<^verbatim>\<open>inf\<close>, which is
  inside the band by the loop's test, and there the code raises where the lower bound
  returns the band.
\<close>

theorem classify_pm25_top_band_bounds:
  "in_band (float_lit (2501 / 10)) (last BREAKPOINTS)
   \<and> in_band PInf (last BREAKPOINTS)
   \<and> classify_pm25 (PFloat (float_lit (2501 / 10))) = Inr (band_result (last BREAKPOINTS) 301)
   \<and> classify_pm25 (PFloat PInf) = Inl ValueError"
  by (simp add: in_band_def classify_eval double_eval)

text \<open>
  C6. The claim: \<^verbatim>\<open>classify_pm25(300.0)\<close> is \<^verbatim>\<open>Hazardous\<close> with estimate 301, AQI range
  \<open>[301, 500]\<close> and pm25 range \<open>[250.1, null]\<close>, and finite values of the top band
  interpolate to the band's lower AQI bound. The code does so at \<^verbatim>\<open>300.0\<close> (and up to
  \<open>10\<^sup>3\<^sup>0\<^sup>0\<close>, by \<open>estimate_top_band\<close>), but not at every finite value of the band: at
  \<^verbatim>\<open>1e307\<close> the product \<^verbatim>\<open>(pm - pm_lo) * 199\<close> overflows to infinity, the quotient by
  the infinite bound is NaN, and the code raises instead of returning 301.
\<close>

theorem classify_pm25_300_and_1e307:
  "classify_pm25 (PFloat (float_lit 300))
     = Inr [(''sl_aqi_label'', PStr ''Hazardous''), (''sl_aqi_est'', PInt 301),
            (''sl_aqi_range'', PList [PInt 301, PInt 500]),
            (''pm25_range'', PList [PFloat (float_lit (2501 / 10)), PNone])]
   \<and> (\<exists>r. float_lit (10 ^ 307) = Fin r)
   \<and> in_band (float_lit (10 ^ 307)) (last BREAKPOINTS)
   \<and> classify_pm25 (PFloat (float_lit (10 ^ 307))) = Inl ValueError"
proof -
  define Y :: rat where "Y = 9999999999999999860310597602564577717002641838126363875249660735883565852672743849064846414228960666786379280392654615393353172850252103336275952370615397010730691664689375178569039851073146339641623266071126720011020169553304018596457812688561947201171488461172921822139066929851282122002676667750021070848"
  have at_300: "classify_pm25 (PFloat (float_lit 300))
     = Inr [(''sl_aqi_label'', PStr ''Hazardous''), (''sl_aqi_est'', PInt 301),
            (''sl_aqi_range'', PList [PInt 301, PInt 500]),
            (''pm25_range'', PList [PFloat (float_lit (2501 / 10)), PNone])]"
    by (simp add: classify_eval double_eval)
  have lit: "float_lit (10 ^ 307) = Fin Y"
    unfolding Y_def by (simp add: float_lit_def double_eval_at round_to_grid_at[where k = 1019])
  have sub: "fsub (Fin Y) (Fin (8799611459416883 / 35184372088832)) = Fin Y"
    unfolding Y_def by (simp add: fsub_def double_eval_at round_to_grid_at[where k = 1019])
  have mul: "fmul (Fin Y) (Fin 199) = PInf"
    unfolding Y_def by (simp add: double_eval_at round_to_grid_at[where k = 1027])
  have den: "fsub PInf (Fin (8799611459416883 / 35184372088832)) = PInf"
    by (simp add: fsub_def)
  have ints: "float_of_int 199 = Inr (Fin 199)" "float_of_int 301 = Inr (Fin 301)"
    by (simp_all add: float_of_int_def round_int_values)
  have est: "estimate (Fin Y) (Fin (8799611459416883 / 35184372088832)) PInf 301 500
               = Inl ValueError"
    by (simp add: estimate_def interpolate_def sub den ints mul del: fmul.simps)
  have low: "8799611459416883 / 35184372088832 \<le> Y"
    unfolding Y_def by simp
  have cls: "classify_pm25 (PFloat (Fin Y)) = Inl ValueError"
    using select_hazardous[OF low] by (simp add: est)
  have inb: "in_band (Fin Y) (last BREAKPOINTS)"
    using low by (simp add: in_band_def BREAKPOINTS_def table_floats)
  show ?thesis unfolding lit using at_300 cls inb by simp
qed

text \<open>
  C9. An absent input and \<^verbatim>\<open>-5.0\<close>, below the first band, are both classified
  \<^verbatim>\<open>Unknown\<close> with a null estimate; the result has no other key, so no AQI range and no
  pm25 range.
\<close>

theorem classify_pm25_unknown:
  "classify_pm25 PNone = Inr [(''sl_aqi_label'', PStr ''Unknown''), (''sl_aqi_est'', PNone)]
   \<and> classify_pm25 (PFloat (float_lit (- 5)))
       = Inr [(''sl_aqi_label'', PStr ''Unknown''), (''sl_aqi_est'', PNone)]"
  by (simp add: classify_eval double_eval)

text \<open>
  C10. The claim: for every finite value that matches a band the estimate is an integer
  between the band's AQI bounds and the ranges are the band's. Up to \<open>10\<^sup>3\<^sup>0\<^sup>0\<close> this is
  \<open>classify_in_band\<close>. The finite float \<^verbatim>\<open>1e306\<close> matches the top band, but the product
  \<^verbatim>\<open>(pm - pm_lo) * 199\<close> overflows to infinity, the quotient by the infinite bound is NaN,
  and the code raises instead of returning an estimate.
\<close>

theorem classify_pm25_1e306_raises:
  "(\<exists>r. float_lit (10 ^ 306) = Fin r)
   \<and> in_band (float_lit (10 ^ 306)) (last BREAKPOINTS)
   \<and> classify_pm25 (PFloat (float_lit (10 ^ 306))) = Inl ValueError"
proof -
  define X :: rat where "X = 1000000000000000017216064596736454828831087825013238982328892017892380671244575047987920451875459594568606138861698291060311049225532948520696938805711440650122628514669428460356992624968028329550689224175284346730060716088829214255439694630119794546505512415617982143262670862918816362862119154749127262208"
  have lit: "float_lit (10 ^ 306) = Fin X"
    unfolding X_def by (simp add: float_lit_def double_eval_at round_to_grid_at[where k = 1016])
  have sub: "fsub (Fin X) (Fin (8799611459416883 / 35184372088832)) = Fin X"
    unfolding X_def by (simp add: fsub_def double_eval_at round_to_grid_at[where k = 1016])
  have mul: "fmul (Fin X) (Fin 199) = PInf"
    unfolding X_def by (simp add: double_eval_at round_to_grid_at[where k = 1024])
  have den: "fsub PInf (Fin (8799611459416883 / 35184372088832)) = PInf"
    by (simp add: fsub_def)
  have ints: "float_of_int 199 = Inr (Fin 199)" "float_of_int 301 = Inr (Fin 301)"
    by (simp_all add: float_of_int_def round_int_values)
  have est: "estimate (Fin X) (Fin (8799611459416883 / 35184372088832)) PInf 301 500
               = Inl ValueError"
    by (simp add: estimate_def interpolate_def sub den ints mul del: fmul.simps)
  have low: "8799611459416883 / 35184372088832 \<le> X"
    unfolding X_def by simp
  have cls: "classify_pm25 (PFloat (Fin X)) = Inl ValueError"
    using select_hazardous[OF low] by (simp add: est)
  have inb: "in_band (Fin X) (last BREAKPOINTS)"
    using low by (simp add: in_band_def BREAKPOINTS_def table_floats)
  show ?thesis unfolding lit using cls inb by simp
qed

section \<open>The claim about the timestamp conversion\<close>








section \<open>The claim about the order of the stations\<close>





end
